theory Spec2Isabelle
  imports Complex_Main
begin

section \<open>03_classes_basics/solution.cpp: ShoppingCart\<close>

text \<open>
  The element type \<open>double\<close> is the type parameter \<open>'d\<close>: the definitions use only
  the operations the source applies to it (\<open>0.0\<close> and \<open>+=\<close>), and each theorem names the
  laws of arithmetic it relies on by the sort of \<open>'d\<close>.

  Objects live in a store indexed by object identity, so that a member function that
  returns \<open>*this\<close> by reference returns an identity, and a call through the returned
  reference is a call on whatever object that identity denotes.
\<close>

type_synonym ref = nat

record 'd Item =
  name :: string
  price :: 'd

record 'd ShoppingCart =
  items :: "'d Item list"

type_synonym 'd store = "ref \<Rightarrow> 'd ShoppingCart"

text \<open>\<open>items.push_back({name, price}); return *this;\<close>\<close>

definition addItem :: "'d store \<Rightarrow> ref \<Rightarrow> string \<Rightarrow> 'd \<Rightarrow> ref \<times> 'd store" where
  "addItem s this n p =
     (this, s(this := (s this)\<lparr>items := items (s this) @ [\<lparr>name = n, price = p\<rparr>]\<rparr>))"

text \<open>
  \<open>std::remove_if\<close> over the whole vector, as the standard library writes it: find the
  first element the predicate holds for; from there on move every element it does not
  hold for down to \<open>result\<close>; return \<open>result\<close>, the new logical end. Positions are
  indices into the vector, \<open>last\<close> is its length, and \<open>first != last\<close> is \<open>first < length xs\<close>
  since \<open>first\<close> starts at or below it. An element that has been moved from is only ever
  overwritten or erased afterwards, so \<open>*result = std::move(*first)\<close> is the assignment
  of the value.
\<close>

function find_if :: "('a \<Rightarrow> bool) \<Rightarrow> 'a list \<Rightarrow> nat \<Rightarrow> nat" where
  "find_if pred xs first =
     (if first < length xs \<and> \<not> pred (xs ! first) then find_if pred xs (Suc first) else first)"
  by pat_completeness auto
termination
  by (relation "measure (\<lambda>(pred, xs, first). length xs - first)") auto

declare find_if.simps [simp del]

function remove_if_loop :: "('a \<Rightarrow> bool) \<Rightarrow> 'a list \<Rightarrow> nat \<Rightarrow> nat \<Rightarrow> 'a list \<times> nat" where
  "remove_if_loop pred xs result first =
     (if first < length xs
      then (if \<not> pred (xs ! first)
            then remove_if_loop pred (xs[result := xs ! first]) (Suc result) (Suc first)
            else remove_if_loop pred xs result (Suc first))
      else (xs, result))"
  by pat_completeness auto
termination
  by (relation "measure (\<lambda>(pred, xs, result, first). length xs - first)") auto

declare remove_if_loop.simps [simp del]

definition remove_if :: "('a \<Rightarrow> bool) \<Rightarrow> 'a list \<Rightarrow> 'a list \<times> nat" where
  "remove_if pred xs =
     (let first = find_if pred xs 0
      in if first = length xs then (xs, first)
         else remove_if_loop pred xs first (Suc first))"

text \<open>\<open>v.erase(first, v.end())\<close>: the vector keeps the elements before \<open>first\<close>.\<close>

definition erase_to_end :: "'a list \<Rightarrow> nat \<Rightarrow> 'a list" where
  "erase_to_end xs first = take first xs"

text \<open>
  \<open>items.erase(std::remove_if(items.begin(), items.end(), [&name](const Item& item)
  { return item.name == name; }), items.end()); return *this;\<close>
\<close>

definition removeItem :: "'d store \<Rightarrow> ref \<Rightarrow> string \<Rightarrow> ref \<times> 'd store" where
  "removeItem s this n =
     (case remove_if (\<lambda>item. name item = n) (items (s this)) of
        (xs, new_end) \<Rightarrow> (this, s(this := (s this)\<lparr>items := erase_to_end xs new_end\<rparr>)))"

text \<open>
  \<open>double total = 0.0; for (const auto& item : items) total += item.price; return total;\<close>
  The member function is \<open>const\<close>: it hands back the store it was given.
\<close>

fun getTotal_loop :: "'d::plus \<Rightarrow> 'd Item list \<Rightarrow> 'd" where
  "getTotal_loop tot [] = tot"
| "getTotal_loop tot (item # rest) = getTotal_loop (tot + price item) rest"

definition getTotal :: "('d::{zero,plus}) store \<Rightarrow> ref \<Rightarrow> 'd \<times> 'd store" where
  "getTotal s this = (getTotal_loop 0 (items (s this)), s)"

text \<open>
  Program states the theorems are tried on: a store in which every cart is as its
  implicit default constructor leaves it, and the cart of \<open>main\<close> after
  \<open>cart.addItem("Apple", 1.50).addItem("Banana", 0.75).addItem("Orange", 1.25)\<close>.
\<close>

definition no_carts :: "'d store" where
  "no_carts = (\<lambda>r. \<lparr>items = []\<rparr>)"

definition fruit_cart :: "real store" where
  "fruit_cart =
     snd (addItem (snd (addItem (snd (addItem no_carts 0 ''Apple'' 1.50)) 0 ''Banana'' 0.75))
       0 ''Orange'' 1.25)"

section \<open>04_constructors_destructors/example.cpp: DynamicArray\<close>

text \<open>
  The class owns an array obtained from \<open>new int[n]\<close>. The heap is the list of all arrays
  \<open>new[]\<close> has handed out so far, an array's address being its position in that list;
  \<open>delete[]\<close> leaves \<open>None\<close> at the address, and no address is handed out twice. A cell
  of a fresh array holds no value yet (\<open>None\<close>) until it is assigned.

  Every \<open>int\<close> of the program is an \<open>int\<close> here and every \<open>size_t\<close> a \<open>nat\<close>: the class
  computes nothing with them but \<open>++i\<close> below \<open>size\<close>.

  Whether the host environment satisfies a request \<open>new int[n]\<close> is a parameter of the
  model (\<open>host\<close>); \<open>new[]\<close> throws \<open>std::bad_alloc\<close> otherwise, the specification's
  \<open>AllocationError\<close>. \<open>InvalidStateError\<close> and \<open>IndexOutOfRangeError\<close> are the other two
  errors of the specification. What C++ leaves undefined (an access outside a live array,
  reading a cell that holds no value, deleting twice) is the outcome
  \<open>UndefinedBehaviour\<close>: no exception is thrown there and nothing is checked.
\<close>

datatype error = AllocationError | InvalidStateError | IndexOutOfRangeError | UndefinedBehaviour

type_synonym addr = nat
type_synonym block = "int option list"
type_synonym heap = "block option list"
type_synonym host = "heap \<Rightarrow> nat \<Rightarrow> bool"

definition new_int_array :: "host \<Rightarrow> heap \<Rightarrow> nat \<Rightarrow> error + (addr \<times> heap)" where
  "new_int_array host h n =
     (if host h n then Inr (length h, h @ [Some (replicate n None)]) else Inl AllocationError)"

definition delete_array :: "heap \<Rightarrow> addr \<Rightarrow> error + heap" where
  "delete_array h p =
     (if p < length h
      then (case h ! p of
              None \<Rightarrow> Inl UndefinedBehaviour
            | Some b \<Rightarrow> Inr (h[p := None]))
      else Inl UndefinedBehaviour)"

text \<open>Reading and assigning \<open>p[i]\<close>.\<close>

definition load_at :: "heap \<Rightarrow> addr \<Rightarrow> nat \<Rightarrow> error + int" where
  "load_at h p i =
     (if p < length h
      then (case h ! p of
              None \<Rightarrow> Inl UndefinedBehaviour
            | Some b \<Rightarrow>
                (if i < length b
                 then (case b ! i of None \<Rightarrow> Inl UndefinedBehaviour | Some v \<Rightarrow> Inr v)
                 else Inl UndefinedBehaviour))
      else Inl UndefinedBehaviour)"

definition store_at :: "heap \<Rightarrow> addr \<Rightarrow> nat \<Rightarrow> int \<Rightarrow> error + heap" where
  "store_at h p i v =
     (if p < length h
      then (case h ! p of
              None \<Rightarrow> Inl UndefinedBehaviour
            | Some b \<Rightarrow>
                (if i < length b then Inr (h[p := Some (b[i := Some v])])
                 else Inl UndefinedBehaviour))
      else Inl UndefinedBehaviour)"

record DynamicArray =
  data :: addr
  arr_size :: nat

text \<open>\<open>for (size_t i = 0; i < size; ++i) data[i] = 0;\<close>\<close>

function ctor_loop :: "heap \<Rightarrow> DynamicArray \<Rightarrow> nat \<Rightarrow> error + heap" where
  "ctor_loop h this i =
     (if i < arr_size this
      then (case store_at h (data this) i 0 of
              Inl e \<Rightarrow> Inl e
            | Inr h' \<Rightarrow> ctor_loop h' this (Suc i))
      else Inr h)"
  by pat_completeness auto
termination
  by (relation "measure (\<lambda>(h, this, i). arr_size this - i)") auto

declare ctor_loop.simps [simp del]

text \<open>\<open>DynamicArray(size_t n) : size(n), data(new int[n])\<close> and the loop.\<close>

definition DynamicArray_ctor :: "host \<Rightarrow> heap \<Rightarrow> nat \<Rightarrow> error + (DynamicArray \<times> heap)" where
  "DynamicArray_ctor host h n =
     (case new_int_array host h n of
        Inl e \<Rightarrow> Inl e
      | Inr (p, h1) \<Rightarrow>
          (case ctor_loop h1 \<lparr>data = p, arr_size = n\<rparr> 0 of
             Inl e \<Rightarrow> Inl e
           | Inr h2 \<Rightarrow> Inr (\<lparr>data = p, arr_size = n\<rparr>, h2)))"

text \<open>\<open>~DynamicArray() { delete[] data; }\<close>\<close>

definition DynamicArray_dtor :: "heap \<Rightarrow> DynamicArray \<Rightarrow> error + heap" where
  "DynamicArray_dtor h this = delete_array h (data this)"

text \<open>
  \<open>std::copy(first, last, d_first)\<close> on \<open>int\<close> ranges: \<open>while (first != last)
  *d_first++ = *first++;\<close> with \<open>first\<close> and \<open>last'\<close> positions in the array at \<open>src\<close>
  and \<open>d_first\<close> one in the array at \<open>dst\<close>. The copy constructor calls it with
  \<open>first = 0\<close>, so \<open>first != last\<close> is \<open>first < last'\<close>.
\<close>

function std_copy :: "heap \<Rightarrow> addr \<Rightarrow> nat \<Rightarrow> nat \<Rightarrow> addr \<Rightarrow> nat \<Rightarrow> error + heap" where
  "std_copy h src first last' dst d_first =
     (if first < last'
      then (case load_at h src first of
              Inl e \<Rightarrow> Inl e
            | Inr v \<Rightarrow>
                (case store_at h dst d_first v of
                   Inl e \<Rightarrow> Inl e
                 | Inr h' \<Rightarrow> std_copy h' src (Suc first) last' dst (Suc d_first)))
      else Inr h)"
  by pat_completeness auto
termination
  by (relation "measure (\<lambda>(h, src, first, last', dst, d_first). last' - first)") auto

declare std_copy.simps [simp del]

text \<open>
  \<open>DynamicArray(const DynamicArray& other) : size(other.size), data(new int[other.size])
  { std::copy(other.data, other.data + size, data); }\<close>
\<close>

definition DynamicArray_copy_ctor ::
    "host \<Rightarrow> heap \<Rightarrow> DynamicArray \<Rightarrow> error + (DynamicArray \<times> heap)" where
  "DynamicArray_copy_ctor host h other =
     (case new_int_array host h (arr_size other) of
        Inl e \<Rightarrow> Inl e
      | Inr (p, h1) \<Rightarrow>
          (case std_copy h1 (data other) 0 (arr_size other) p 0 of
             Inl e \<Rightarrow> Inl e
           | Inr h2 \<Rightarrow> Inr (\<lparr>data = p, arr_size = arr_size other\<rparr>, h2)))"

text \<open>
  \<open>int& operator[](size_t index) { return data[index]; }\<close> hands out a reference to
  \<open>data[index]\<close>; the caller reads through it (\<open>arr[0]\<close> as a value) or assigns through it
  (\<open>arr[0] = 10\<close>).
\<close>

definition operator_index_read :: "heap \<Rightarrow> DynamicArray \<Rightarrow> nat \<Rightarrow> error + int" where
  "operator_index_read h this index = load_at h (data this) index"

definition operator_index_assign :: "heap \<Rightarrow> DynamicArray \<Rightarrow> nat \<Rightarrow> int \<Rightarrow> error + heap" where
  "operator_index_assign h this index v = store_at h (data this) index v"

text \<open>
  An instance between its construction and its destruction: its array is on the heap,
  has \<open>size\<close> cells, and every cell holds a value. \<open>contents\<close> reads the cells.
\<close>

definition live :: "heap \<Rightarrow> DynamicArray \<Rightarrow> bool" where
  "live h a =
     (data a < length h \<and>
      (case h ! data a of
         None \<Rightarrow> False
       | Some b \<Rightarrow> length b = arr_size a \<and> list_all (\<lambda>c. c \<noteq> None) b))"

definition contents :: "heap \<Rightarrow> DynamicArray \<Rightarrow> int list" where
  "contents h a = (case h ! data a of None \<Rightarrow> [] | Some b \<Rightarrow> map the b)"

text \<open>An array on the heap whose cells hold the given values.\<close>

definition filled :: "int list \<Rightarrow> block option" where
  "filled vs = Some (map Some vs)"

text \<open>A host that satisfies every request.\<close>

definition unlimited :: host where
  "unlimited h n = True"

section \<open>03_classes_basics/example.cpp: BankAccount\<close>








section \<open>03_classes_basics: IDGenerator (example.cpp) and GlobalCounter (solution.cpp)\<close>










section \<open>03_classes_basics/solution.cpp: Student\<close>






section \<open>double\<close>

text \<open>
  The addition of IEEE 754 binary64 in the default rounding mode, for the carts of the
  program as it runs: a finite double is the real number it denotes (the two zeros are
  not told apart), and \<open>round_double\<close> rounds a real to the nearest double, ties to the
  even significand, with 53 bits of precision down to the exponent \<open>-1074\<close> and infinity
  beyond \<open>DBL_MAX\<close>. A literal such as \<open>0.1\<close> is \<open>round_double (1 / 10)\<close>.
\<close>

datatype double = Finite real | PlusInfinity | MinusInfinity | NaN

definition DBL_MAX :: real where
  "DBL_MAX = (2 ^ 53 - 1) * 2 ^ 971"

text \<open>The number of binary digits of a positive integer, and \<open>\<lfloor>log\<^sub>2 q\<rfloor>\<close> for \<open>q > 0\<close>.\<close>

function bit_length :: "int \<Rightarrow> int" where
  "bit_length n = (if n \<le> 0 then 0 else bit_length (n div 2) + 1)"
  by pat_completeness auto
termination
  by (relation "measure nat") auto

declare bit_length.simps [simp del]

definition ilog2 :: "real \<Rightarrow> int" where
  "ilog2 q =
     (if 1 \<le> q then bit_length \<lfloor>q\<rfloor> - 1
      else - bit_length (\<lceil>1 / q\<rceil> - 1))"

definition pow2 :: "int \<Rightarrow> real" where
  "pow2 e = (if 0 \<le> e then 2 ^ nat e else 1 / 2 ^ nat (- e))"

definition round_half_even :: "real \<Rightarrow> int" where
  "round_half_even m =
     (let f = \<lfloor>m\<rfloor>; r = m - of_int f
      in if r < 1 / 2 then f
         else if 1 / 2 < r then f + 1
         else if even f then f else f + 1)"

definition round_double :: "real \<Rightarrow> double" where
  "round_double q =
     (if q = 0 then Finite 0
      else let e = max (ilog2 \<bar>q\<bar> - 52) (- 1074);
               v = of_int (round_half_even (\<bar>q\<bar> / pow2 e)) * pow2 e
           in if DBL_MAX < v then (if 0 < q then PlusInfinity else MinusInfinity)
              else Finite (sgn q * v))"

fun double_add :: "double \<Rightarrow> double \<Rightarrow> double" where
  "double_add (Finite x) (Finite y) = round_double (x + y)"
| "double_add NaN y = NaN"
| "double_add x NaN = NaN"
| "double_add PlusInfinity MinusInfinity = NaN"
| "double_add MinusInfinity PlusInfinity = NaN"
| "double_add PlusInfinity y = PlusInfinity"
| "double_add x PlusInfinity = PlusInfinity"
| "double_add MinusInfinity y = MinusInfinity"
| "double_add x MinusInfinity = MinusInfinity"

instantiation double :: "{zero, plus}"
begin

definition zero_double :: double where
  "zero_double = Finite 0"

definition plus_double :: "double \<Rightarrow> double \<Rightarrow> double" where
  "plus_double x y = double_add x y"

instance ..

end

text \<open>
  Carts with amounts of type \<open>double\<close>: \<open>0.1, 0.2, 0.3\<close> and the same amounts in reverse
  order; \<open>1e16, 1.0, 1.0\<close> and the same amounts in reverse order.
\<close>

definition tenths_cart :: "double store" where
  "tenths_cart =
     snd (addItem (snd (addItem (snd (addItem no_carts 0 ''a'' (round_double (1 / 10))))
       0 ''b'' (round_double (2 / 10)))) 0 ''c'' (round_double (3 / 10)))"

definition tenths_reversed_cart :: "double store" where
  "tenths_reversed_cart =
     snd (addItem (snd (addItem (snd (addItem no_carts 0 ''c'' (round_double (3 / 10))))
       0 ''b'' (round_double (2 / 10)))) 0 ''a'' (round_double (1 / 10)))"

definition large_first_cart :: "double store" where
  "large_first_cart =
     snd (addItem (snd (addItem (snd (addItem no_carts 0 ''a'' (round_double 10000000000000000)))
       0 ''b'' (round_double 1))) 0 ''c'' (round_double 1))"

definition large_last_cart :: "double store" where
  "large_last_cart =
     snd (addItem (snd (addItem (snd (addItem no_carts 0 ''c'' (round_double 1)))
       0 ''b'' (round_double 1))) 0 ''a'' (round_double 10000000000000000))"

section \<open>Lemmas: ShoppingCart\<close>

lemma find_if_bounds:
  "first \<le> length xs \<Longrightarrow> first \<le> find_if pred xs first \<and> find_if pred xs first \<le> length xs"
proof (induction pred xs first rule: find_if.induct)
  case (1 pred xs first)
  show ?case
  proof (cases "first < length xs \<and> \<not> pred (xs ! first)")
    case True
    with 1 show ?thesis by (subst (1 2) find_if.simps) auto
  next
    case False
    with 1 show ?thesis by (subst (1 2) find_if.simps) auto
  qed
qed

lemma find_if_skipped:
  "first \<le> j \<Longrightarrow> j < find_if pred xs first \<Longrightarrow> \<not> pred (xs ! j)"
proof (induction pred xs first rule: find_if.induct)
  case (1 pred xs first)
  show ?case
  proof (cases "first < length xs \<and> \<not> pred (xs ! first)")
    case True
    then have eq: "find_if pred xs first = find_if pred xs (Suc first)"
      by (subst find_if.simps) simp
    show ?thesis
    proof (cases "j = first")
      case True
      with \<open>first < length xs \<and> \<not> pred (xs ! first)\<close> show ?thesis by simp
    next
      case False
      with 1 True eq show ?thesis by auto
    qed
  next
    case False
    then have "find_if pred xs first = first"
      by (subst find_if.simps) auto
    with 1 show ?thesis by simp
  qed
qed

lemma find_if_found:
  "find_if pred xs first < length xs \<Longrightarrow> pred (xs ! find_if pred xs first)"
proof (induction pred xs first rule: find_if.induct)
  case (1 pred xs first)
  show ?case
  proof (cases "first < length xs \<and> \<not> pred (xs ! first)")
    case True
    then have eq: "find_if pred xs first = find_if pred xs (Suc first)"
      by (subst find_if.simps) simp
    with 1 True show ?thesis by simp
  next
    case False
    then have eq: "find_if pred xs first = first"
      by (subst find_if.simps) auto
    with 1 False show ?thesis by auto
  qed
qed

lemma filter_take_find_if:
  "filter (\<lambda>x. \<not> pred x) (take (find_if pred xs 0) xs) = take (find_if pred xs 0) xs"
proof -
  have "\<forall>x \<in> set (take (find_if pred xs 0) xs). \<not> pred x"
  proof
    fix x assume "x \<in> set (take (find_if pred xs 0) xs)"
    then obtain j where j: "j < length (take (find_if pred xs 0) xs)" "x = take (find_if pred xs 0) xs ! j"
      by (auto simp: in_set_conv_nth)
    then have "j < find_if pred xs 0" by simp
    with find_if_skipped [of 0 j pred xs] j show "\<not> pred x" by simp
  qed
  then show ?thesis by (simp add: filter_id_conv)
qed

lemma remove_if_loop_spec:
  "result \<le> first \<Longrightarrow> first \<le> length xs \<Longrightarrow> remove_if_loop pred xs result first = (ys, k) \<Longrightarrow>
   take k ys = take result xs @ filter (\<lambda>x. \<not> pred x) (drop first xs)"
proof (induction pred xs result first arbitrary: ys k rule: remove_if_loop.induct)
  case (1 pred xs result first)
  show ?case
  proof (cases "first < length xs")
    case False
    with 1(3,4,5) show ?thesis by (subst (asm) remove_if_loop.simps) auto
  next
    case lt: True
    have split: "drop first xs = xs ! first # drop (Suc first) xs"
      using lt by (simp add: Cons_nth_drop_Suc)
    show ?thesis
    proof (cases "pred (xs ! first)")
      case True
      with lt 1(5) have "remove_if_loop pred xs result (Suc first) = (ys, k)"
        by (subst (asm) remove_if_loop.simps) simp
      with 1(2) [OF lt] True 1(3) lt split show ?thesis by simp
    next
      case False
      with lt 1(5) have run: "remove_if_loop pred (xs[result := xs ! first]) (Suc result) (Suc first) = (ys, k)"
        by (subst (asm) remove_if_loop.simps) simp
      have "take k ys = take (Suc result) (xs[result := xs ! first])
                @ filter (\<lambda>x. \<not> pred x) (drop (Suc first) (xs[result := xs ! first]))"
        using 1(1) [OF lt False _ _ run] 1(3) lt by simp
      moreover have "take (Suc result) (xs[result := xs ! first]) = take result xs @ [xs ! first]"
        using 1(3) lt by (simp add: take_Suc_conv_app_nth)
      moreover have "drop (Suc first) (xs[result := xs ! first]) = drop (Suc first) xs"
        using 1(3) by simp
      ultimately show ?thesis using split False by simp
    qed
  qed
qed

lemma erase_remove_if:
  "erase_to_end (fst (remove_if pred xs)) (snd (remove_if pred xs)) = filter (\<lambda>x. \<not> pred x) xs"
proof (cases "find_if pred xs 0 = length xs")
  case True
  with filter_take_find_if [of pred xs] show ?thesis
    by (simp add: remove_if_def erase_to_end_def)
next
  case False
  define f where "f = find_if pred xs 0"
  have f: "f < length xs" "pred (xs ! f)"
    using False find_if_bounds [of 0 xs pred] find_if_found [of pred xs 0] by (auto simp: f_def)
  obtain ys k where run: "remove_if_loop pred xs f (Suc f) = (ys, k)"
    by (cases "remove_if_loop pred xs f (Suc f)")
  have "take k ys = take f xs @ filter (\<lambda>x. \<not> pred x) (drop (Suc f) xs)"
    using remove_if_loop_spec [OF _ _ run] f by simp
  moreover have "filter (\<lambda>x. \<not> pred x) xs
      = filter (\<lambda>x. \<not> pred x) (take f xs) @ filter (\<lambda>x. \<not> pred x) (xs ! f # drop (Suc f) xs)"
    using f(1) by (metis append_take_drop_id filter_append Cons_nth_drop_Suc)
  ultimately show ?thesis
    using False run f filter_take_find_if [of pred xs]
    by (simp add: remove_if_def erase_to_end_def f_def Let_def)
qed

lemma getTotal_loop_sum: "getTotal_loop (tot :: 'd::monoid_add) xs = tot + sum_list (map price xs)"
  by (induction xs arbitrary: tot) (simp_all add: add.assoc)

lemma getTotal_loop_snoc: "getTotal_loop tot (xs @ [x]) = getTotal_loop tot xs + price x"
  by (induction xs arbitrary: tot) simp_all

lemma items_removeItem:
  "items (snd (removeItem s this l) this) = filter (\<lambda>item. name item \<noteq> l) (items (s this))"
  using erase_remove_if [of "\<lambda>item. name item = l" "items (s this)"]
  by (cases "remove_if (\<lambda>item. name item = l) (items (s this))") (simp add: removeItem_def)

lemma removeItem_other: "r \<noteq> this \<Longrightarrow> snd (removeItem s this l) r = s r"
  by (simp add: removeItem_def split: prod.splits)

lemma fst_removeItem: "fst (removeItem s this l) = this"
  by (simp add: removeItem_def split: prod.splits)

lemma removeItem_no_match:
  assumes "\<forall>item \<in> set (items (s this)). name item \<noteq> l"
  shows "snd (removeItem s this l) = s"
proof
  fix r
  show "snd (removeItem s this l) r = s r"
  proof (cases "r = this")
    case True
    have "items (snd (removeItem s this l) this) = items (s this)"
      using assms by (simp add: items_removeItem filter_id_conv)
    then show ?thesis using True by simp
  next
    case False
    then show ?thesis by (rule removeItem_other)
  qed
qed

lemma items_fruit_cart:
  "items (fruit_cart 0) = [\<lparr>name = ''Apple'', price = 1.50\<rparr>, \<lparr>name = ''Banana'', price = 0.75\<rparr>,
      \<lparr>name = ''Orange'', price = 1.25\<rparr>]"
  by (simp add: fruit_cart_def no_carts_def addItem_def)

section \<open>Lemmas: DynamicArray\<close>

lemma store_at_live:
  "p < length h \<Longrightarrow> h ! p = Some b \<Longrightarrow> i < length b \<Longrightarrow>
   store_at h p i v = Inr (h[p := Some (b[i := Some v])])"
  by (simp add: store_at_def)

lemma load_at_live:
  "p < length h \<Longrightarrow> h ! p = Some b \<Longrightarrow> i < length b \<Longrightarrow> b ! i = Some v \<Longrightarrow>
   load_at h p i = Inr v"
  by (simp add: load_at_def)

lemma update_same: "h ! p = x \<Longrightarrow> h[p := x] = h"
  by (metis list_update_id)

lemma ctor_loop_fill:
  "p < length h \<Longrightarrow> h ! p = Some b \<Longrightarrow> length b = n \<Longrightarrow> i \<le> n \<Longrightarrow>
   ctor_loop h \<lparr>data = p, arr_size = n\<rparr> i
     = Inr (h[p := Some (take i b @ replicate (n - i) (Some 0))])"
proof (induction "n - i" arbitrary: i h b)
  case 0
  then have "i = n" by simp
  with 0 show ?case
    by (subst ctor_loop.simps) (simp add: update_same)
next
  case (Suc k)
  then have lt: "i < n" by simp
  let ?b = "b[i := Some 0]"
  let ?h = "h[p := Some ?b]"
  have step: "ctor_loop h \<lparr>data = p, arr_size = n\<rparr> i = ctor_loop ?h \<lparr>data = p, arr_size = n\<rparr> (Suc i)"
    using Suc.prems lt by (subst ctor_loop.simps) (simp add: store_at_live)
  have "ctor_loop ?h \<lparr>data = p, arr_size = n\<rparr> (Suc i)
      = Inr (?h[p := Some (take (Suc i) ?b @ replicate (n - Suc i) (Some 0))])"
    using Suc.prems Suc.hyps(2) lt by (intro Suc.hyps(1)) simp_all
  moreover have "take (Suc i) ?b @ replicate (n - Suc i) (Some 0) = take i b @ replicate (n - i) (Some 0)"
  proof -
    have "take (Suc i) ?b = take i b @ [Some 0]"
      using Suc.prems lt by (simp add: take_Suc_conv_app_nth)
    moreover have "replicate (n - i) (Some (0::int)) = Some 0 # replicate (n - Suc i) (Some 0)"
      using lt by (metis Suc_diff_Suc replicate_Suc)
    ultimately show ?thesis by simp
  qed
  ultimately show ?case using step by simp
qed

lemma std_copy_live:
  "src < length h \<Longrightarrow> dst < length h \<Longrightarrow> src \<noteq> dst \<Longrightarrow> h ! src = Some bs \<Longrightarrow> h ! dst = Some bd \<Longrightarrow>
   length bs = n \<Longrightarrow> length bd = n \<Longrightarrow> list_all (\<lambda>c. c \<noteq> None) bs \<Longrightarrow> i \<le> n \<Longrightarrow>
   std_copy h src i n dst i = Inr (h[dst := Some (take i bd @ drop i bs)])"
proof (induction "n - i" arbitrary: i h bd)
  case 0
  then have "i = n" by simp
  with 0 show ?case
    by (subst std_copy.simps) (simp add: update_same)
next
  case (Suc k)
  then have lt: "i < n" by simp
  then obtain v where v: "bs ! i = Some v"
    using Suc.prems by (auto simp: list_all_length)
  let ?b = "bd[i := Some v]"
  let ?h = "h[dst := Some ?b]"
  have step: "std_copy h src i n dst i = std_copy ?h src (Suc i) n dst (Suc i)"
    using Suc.prems lt v by (subst std_copy.simps) (simp add: store_at_live load_at_live)
  have "std_copy ?h src (Suc i) n dst (Suc i)
      = Inr (?h[dst := Some (take (Suc i) ?b @ drop (Suc i) bs)])"
    using Suc.prems Suc.hyps(2) lt by (intro Suc.hyps(1)) simp_all
  moreover have "take (Suc i) ?b @ drop (Suc i) bs = take i bd @ drop i bs"
  proof -
    have "take (Suc i) ?b = take i bd @ [Some v]"
      using Suc.prems lt by (simp add: take_Suc_conv_app_nth)
    moreover have "drop i bs = Some v # drop (Suc i) bs"
      using Suc.prems lt v by (metis Cons_nth_drop_Suc)
    ultimately show ?thesis by simp
  qed
  ultimately show ?case using step by simp
qed

lemma DynamicArray_ctor_ok:
  "host h n \<Longrightarrow>
   DynamicArray_ctor host h n
     = Inr (\<lparr>data = length h, arr_size = n\<rparr>, h @ [Some (replicate n (Some 0))])"
  using ctor_loop_fill [of "length h" "h @ [Some (replicate n None)]" "replicate n None" n 0]
  by (simp add: DynamicArray_ctor_def new_int_array_def)

lemma DynamicArray_ctor_fails:
  "\<not> host h n \<Longrightarrow> DynamicArray_ctor host h n = Inl AllocationError"
  by (simp add: DynamicArray_ctor_def new_int_array_def)

lemma DynamicArray_copy_ctor_ok:
  assumes "live h other" and "host h (arr_size other)"
  shows "DynamicArray_copy_ctor host h other
     = Inr (\<lparr>data = length h, arr_size = arr_size other\<rparr>, h @ [Some (the (h ! data other))])"
proof -
  from assms(1) obtain bs where bs: "data other < length h" "h ! data other = Some bs"
      "length bs = arr_size other" "list_all (\<lambda>c. c \<noteq> None) bs"
    by (auto simp: live_def split: option.splits)
  let ?n = "arr_size other"
  let ?h1 = "h @ [Some (replicate ?n None)]"
  have "std_copy ?h1 (data other) 0 ?n (length h) 0
      = Inr (?h1[length h := Some (take 0 (replicate ?n None) @ drop 0 bs)])"
    using bs by (intro std_copy_live) (simp_all add: nth_append)
  then show ?thesis
    using assms(2) bs by (simp add: DynamicArray_copy_ctor_def new_int_array_def)
qed

lemma liveE:
  assumes "live h a"
  obtains b where "data a < length h" "h ! data a = Some b" "length b = arr_size a"
    "list_all (\<lambda>c. c \<noteq> None) b"
  using assms by (auto simp: live_def split: option.splits)

lemma read_in_range:
  assumes "live h a" "i < arr_size a"
  shows "operator_index_read h a i = Inr (contents h a ! i)"
proof -
  from assms(1) obtain b where b: "data a < length h" "h ! data a = Some b" "length b = arr_size a"
    "list_all (\<lambda>c. c \<noteq> None) b" by (rule liveE)
  with assms(2) obtain v where "b ! i = Some v" by (auto simp: list_all_length)
  with b assms(2) show ?thesis
    by (simp add: operator_index_read_def load_at_live contents_def)
qed

lemma assign_in_range:
  assumes "live h a" "i < arr_size a"
  shows "\<exists>h'. operator_index_assign h a i v = Inr h' \<and> contents h' a = (contents h a)[i := v]
           \<and> live h' a \<and> length h' = length h \<and> (\<forall>q. q \<noteq> data a \<longrightarrow> h' ! q = h ! q)"
proof -
  from assms(1) obtain b where b: "data a < length h" "h ! data a = Some b" "length b = arr_size a"
    "list_all (\<lambda>c. c \<noteq> None) b" by (rule liveE)
  have "list_all (\<lambda>c. c \<noteq> None) (b[i := Some v])"
    unfolding list_all_length
  proof (intro allI impI)
    fix n assume "n < length (b[i := Some v])"
    then show "b[i := Some v] ! n \<noteq> None"
      using b(4) by (cases "n = i") (simp_all add: list_all_length)
  qed
  with b assms(2) show ?thesis
    by (simp add: operator_index_assign_def store_at_live contents_def live_def map_update)
qed

lemma out_of_range:
  assumes "live h a" "arr_size a \<le> i"
  shows "operator_index_read h a i = Inl UndefinedBehaviour"
    and "operator_index_assign h a i v = Inl UndefinedBehaviour"
  using assms
  by (auto simp: operator_index_read_def operator_index_assign_def load_at_def store_at_def
        elim!: liveE)

lemma assign_frame:
  assumes "operator_index_assign g d i v = Inr g'" "data r \<noteq> data d"
  shows "g' ! data r = g ! data r" and "length g' = length g"
  using assms
  by (auto simp: operator_index_assign_def store_at_def split: if_splits option.splits)

lemma assign_keeps_other:
  assumes "operator_index_assign g d i v = Inr g'" "data r \<noteq> data d"
  shows "contents g' r = contents g r \<and> live g' r = live g r"
  using assign_frame [OF assms] by (simp add: contents_def live_def)

lemma copy_ctor_general:
  assumes "live h r" and "host h (arr_size r)"
  shows "\<exists>d h'. DynamicArray_copy_ctor host h r = Inr (d, h')
        \<and> arr_size d = arr_size r \<and> live h' d \<and> live h' r
        \<and> contents h' d = contents h r \<and> contents h' r = contents h r
        \<and> data d \<noteq> data r
        \<and> (\<forall>g i v g'. operator_index_assign g d i v = Inr g' \<longrightarrow>
               contents g' r = contents g r \<and> live g' r = live g r)
        \<and> (\<forall>g i v g'. operator_index_assign g r i v = Inr g' \<longrightarrow>
               contents g' d = contents g d \<and> live g' d = live g d)"
proof -
  from assms(1) obtain b where b: "data r < length h" "h ! data r = Some b" "length b = arr_size r"
    "list_all (\<lambda>c. c \<noteq> None) b" by (rule liveE)
  let ?d = "\<lparr>data = length h, arr_size = arr_size r\<rparr>"
  let ?h = "h @ [Some b]"
  have run: "DynamicArray_copy_ctor host h r = Inr (?d, ?h)"
    using DynamicArray_copy_ctor_ok [of h r host] assms b by simp
  have ne: "data ?d \<noteq> data r" using b(1) by simp
  have "live ?h ?d" using b by (simp add: live_def)
  moreover have "live ?h r" using b by (simp add: live_def nth_append)
  moreover have "contents ?h ?d = contents h r" using b by (simp add: contents_def)
  moreover have "contents ?h r = contents h r" using b by (simp add: contents_def nth_append)
  moreover have "\<forall>g i v g'. operator_index_assign g ?d i v = Inr g' \<longrightarrow>
               contents g' r = contents g r \<and> live g' r = live g r"
    using ne assign_keeps_other [of _ ?d _ _ _ r] by (metis (no_types))
  moreover have "\<forall>g i v g'. operator_index_assign g r i v = Inr g' \<longrightarrow>
               contents g' ?d = contents g ?d \<and> live g' ?d = live g ?d"
    using ne assign_keeps_other [of _ r _ _ _ ?d] by (metis (no_types))
  ultimately show ?thesis using run ne by (intro exI [of _ ?d] exI [of _ ?h]) simp
qed

lemma live_filled: "p < length h \<Longrightarrow> h ! p = filled vs \<Longrightarrow> length vs = n \<Longrightarrow> live h \<lparr>data = p, arr_size = n\<rparr>"
  by (simp add: live_def filled_def list_all_length)

lemma contents_filled: "h ! p = filled vs \<Longrightarrow> contents h \<lparr>data = p, arr_size = n\<rparr> = vs"
  by (simp add: contents_def filled_def comp_def)

lemma assign_filled:
  "p < length h \<Longrightarrow> h ! p = filled vs \<Longrightarrow> i < length vs \<Longrightarrow>
   operator_index_assign h \<lparr>data = p, arr_size = n\<rparr> i v = Inr (h[p := filled (vs[i := v])])"
  by (simp add: operator_index_assign_def store_at_def filled_def map_update)

lemma read_filled:
  "p < length h \<Longrightarrow> h ! p = filled vs \<Longrightarrow> i < length vs \<Longrightarrow>
   operator_index_read h \<lparr>data = p, arr_size = n\<rparr> i = Inr (vs ! i)"
  by (simp add: operator_index_read_def load_at_def filled_def)

lemma ctor_filled:
  "host h n \<Longrightarrow> DynamicArray_ctor host h n = Inr (\<lparr>data = length h, arr_size = n\<rparr>, h @ [filled (replicate n 0)])"
  by (simp add: DynamicArray_ctor_ok filled_def)

lemma copy_ctor_filled:
  assumes "p < length h" "h ! p = filled vs" "length vs = n" "host h n"
  shows "DynamicArray_copy_ctor host h \<lparr>data = p, arr_size = n\<rparr>
           = Inr (\<lparr>data = length h, arr_size = n\<rparr>, h @ [filled vs])"
  using DynamicArray_copy_ctor_ok [of h "\<lparr>data = p, arr_size = n\<rparr>" host] live_filled [OF assms(1,2,3)] assms
  by (simp add: filled_def)

lemma dtor_live:
  assumes "live h a"
  shows "DynamicArray_dtor h a = Inr (h[data a := None])"
  using assms by (auto simp: DynamicArray_dtor_def delete_array_def elim!: liveE)

lemma after_dtor:
  assumes "data a < length h"
  shows "operator_index_read (h[data a := None]) a i = Inl UndefinedBehaviour"
    and "operator_index_assign (h[data a := None]) a i v = Inl UndefinedBehaviour"
    and "DynamicArray_dtor (h[data a := None]) a = Inl UndefinedBehaviour"
  using assms
  by (simp_all add: operator_index_read_def operator_index_assign_def DynamicArray_dtor_def
        load_at_def store_at_def delete_array_def)

lemma copy_after_dtor:
  assumes "data a < length h" "0 < arr_size a" "host (h[data a := None]) (arr_size a)"
  shows "DynamicArray_copy_ctor host (h[data a := None]) a = Inl UndefinedBehaviour"
proof -
  let ?h = "h[data a := None]"
  have "load_at (?h @ [Some (replicate (arr_size a) None)]) (data a) 0 = Inl UndefinedBehaviour"
    using assms(1) by (simp add: load_at_def nth_append)
  then have "std_copy (?h @ [Some (replicate (arr_size a) None)]) (data a) 0 (arr_size a) (length ?h) 0
      = Inl UndefinedBehaviour"
    using assms(2) by (subst std_copy.simps) simp
  with assms(3) show ?thesis
    by (simp add: DynamicArray_copy_ctor_def new_int_array_def)
qed

lemma in_range_assign_keeps_other:
  assumes "live g d" "i < arr_size d" "data r \<noteq> data d"
  shows "\<exists>g'. operator_index_assign g d i v = Inr g'
           \<and> contents g' r = contents g r \<and> live g' r = live g r"
proof -
  from assign_in_range [OF assms(1,2), of v]
  obtain g' where g': "operator_index_assign g d i v = Inr g'" by blast
  with assign_keeps_other [OF g' assms(3)] show ?thesis by blast
qed

section \<open>Lemmas: the counters, Student and BankAccount\<close>












section \<open>Lemmas: double\<close>

lemmas round_eval = round_double_def ilog2_def bit_length.simps pow2_def round_half_even_def
  Let_def DBL_MAX_def

lemma round_1e16: "round_double 10000000000000000 = Finite 10000000000000000"
  by (simp add: round_eval)

lemma round_1e16_1: "round_double 10000000000000001 = Finite 10000000000000000"
  by (simp add: round_eval)

lemma round_1: "round_double 1 = Finite 1"
  by (simp add: round_eval)

lemma round_2: "round_double 2 = Finite 2"
  by (simp add: round_eval)

lemma round_1e16_2: "round_double 10000000000000002 = Finite 10000000000000002"
  by (simp add: round_eval)

lemma round_tenth: "round_double (1 / 10) = Finite (3602879701896397 / 36028797018963968)"
  by (simp add: round_eval)

lemma round_two_tenths: "round_double (2 / 10) = Finite (3602879701896397 / 18014398509481984)"
  by (simp add: round_eval)

lemma round_fifth: "round_double (1 / 5) = Finite (3602879701896397 / 18014398509481984)"
  using round_two_tenths by simp

lemma round_three_tenths: "round_double (3 / 10) = Finite (5404319552844595 / 18014398509481984)"
  by (simp add: round_eval)

lemma add_0_tenth:
  "0 + Finite (3602879701896397 / 36028797018963968) = Finite (3602879701896397 / 36028797018963968)"
  by (simp add: zero_double_def plus_double_def round_eval)

lemma add_0_three_tenths:
  "0 + Finite (5404319552844595 / 18014398509481984) = Finite (5404319552844595 / 18014398509481984)"
  by (simp add: zero_double_def plus_double_def round_eval)

lemma add_tenth_two_tenths:
  "Finite (3602879701896397 / 36028797018963968) + Finite (3602879701896397 / 18014398509481984)
     = Finite (1351079888211149 / 4503599627370496)"
  by (simp add: plus_double_def round_eval)

lemma add_then_three_tenths:
  "Finite (1351079888211149 / 4503599627370496) + Finite (5404319552844595 / 18014398509481984)
     = Finite (1351079888211149 / 2251799813685248)"
  by (simp add: plus_double_def round_eval)

lemma add_three_tenths_two_tenths:
  "Finite (5404319552844595 / 18014398509481984) + Finite (3602879701896397 / 18014398509481984)
     = Finite (1 / 2)"
  by (simp add: plus_double_def round_eval)

lemma add_half_tenth:
  "Finite (1 / 2) + Finite (3602879701896397 / 36028797018963968)
     = Finite (5404319552844595 / 9007199254740992)"
  by (simp add: plus_double_def round_eval)

lemma add_large:
  "0 + Finite 10000000000000000 = Finite 10000000000000000"
  "Finite 10000000000000000 + Finite 1 = Finite 10000000000000000"
  "0 + Finite 1 = Finite 1"
  "Finite 1 + Finite 1 = Finite 2"
  "Finite 2 + Finite 10000000000000000 = Finite 10000000000000002"
  by (simp_all add: zero_double_def plus_double_def round_1e16 round_1e16_1 round_1 round_2 round_1e16_2)

lemma getTotal_loop_foldl: "getTotal_loop tot xs = foldl (+) tot (map price xs)"
  by (induction xs arbitrary: tot) simp_all

lemma items_tenths_cart:
  "items (tenths_cart 0) =
     [\<lparr>name = ''a'', price = Finite (3602879701896397 / 36028797018963968)\<rparr>,
      \<lparr>name = ''b'', price = Finite (3602879701896397 / 18014398509481984)\<rparr>,
      \<lparr>name = ''c'', price = Finite (5404319552844595 / 18014398509481984)\<rparr>]"
  by (simp add: tenths_cart_def no_carts_def addItem_def round_tenth round_fifth round_three_tenths)

lemma items_tenths_reversed_cart:
  "items (tenths_reversed_cart 0) =
     [\<lparr>name = ''c'', price = Finite (5404319552844595 / 18014398509481984)\<rparr>,
      \<lparr>name = ''b'', price = Finite (3602879701896397 / 18014398509481984)\<rparr>,
      \<lparr>name = ''a'', price = Finite (3602879701896397 / 36028797018963968)\<rparr>]"
  by (simp add: tenths_reversed_cart_def no_carts_def addItem_def round_tenth round_fifth round_three_tenths)

lemma items_large_first_cart:
  "items (large_first_cart 0) =
     [\<lparr>name = ''a'', price = Finite 10000000000000000\<rparr>, \<lparr>name = ''b'', price = Finite 1\<rparr>,
      \<lparr>name = ''c'', price = Finite 1\<rparr>]"
  by (simp add: large_first_cart_def no_carts_def addItem_def round_1e16 round_1)

lemma items_large_last_cart:
  "items (large_last_cart 0) =
     [\<lparr>name = ''c'', price = Finite 1\<rparr>, \<lparr>name = ''b'', price = Finite 1\<rparr>,
      \<lparr>name = ''a'', price = Finite 10000000000000000\<rparr>]"
  by (simp add: large_last_cart_def no_carts_def addItem_def round_1e16 round_1)

lemma total_tenths_cart: "fst (getTotal tenths_cart 0) = Finite (1351079888211149 / 2251799813685248)"
  by (simp only: getTotal_def fst_conv items_tenths_cart getTotal_loop.simps Item.simps
        add_0_tenth add_tenth_two_tenths add_then_three_tenths)

lemma total_tenths_reversed_cart:
  "fst (getTotal tenths_reversed_cart 0) = Finite (5404319552844595 / 9007199254740992)"
  by (simp only: getTotal_def fst_conv items_tenths_reversed_cart getTotal_loop.simps Item.simps
        add_0_three_tenths add_three_tenths_two_tenths add_half_tenth)

lemma total_large_first_cart: "fst (getTotal large_first_cart 0) = Finite 10000000000000000"
  by (simp only: getTotal_def fst_conv items_large_first_cart getTotal_loop.simps Item.simps add_large)

lemma total_large_last_cart: "fst (getTotal large_last_cart 0) = Finite 10000000000000002"
  by (simp only: getTotal_def fst_conv items_large_last_cart getTotal_loop.simps Item.simps add_large)

section \<open>The claims\<close>

text \<open>
  C1 (as amended). The class has no \<open>release()\<close>, validity flag or \<open>InvalidStateError\<close>:
  the destructor, which the language runs once per instance, frees the array of a live
  instance and touches nothing else on the heap. After it nothing is checked: reading or
  assigning through \<open>operator[]\<close>, copy-constructing from the instance (when it has
  elements and the host satisfies the allocation) and destroying it a second time are
  all undefined behaviour, the last being a second \<open>delete[]\<close> of the same array.
\<close>

theorem dtor_frees_storage:
  "live h a \<longrightarrow>
     DynamicArray_dtor h a = Inr (h[data a := None])
     \<and> (\<forall>i. operator_index_read (h[data a := None]) a i = Inl UndefinedBehaviour)
     \<and> (\<forall>i v. operator_index_assign (h[data a := None]) a i v = Inl UndefinedBehaviour)
     \<and> (0 < arr_size a \<and> host (h[data a := None]) (arr_size a) \<longrightarrow>
           DynamicArray_copy_ctor host (h[data a := None]) a = Inl UndefinedBehaviour)
     \<and> DynamicArray_dtor (h[data a := None]) a = Inl UndefinedBehaviour"
proof
  assume l: "live h a"
  then have "data a < length h" by (rule liveE)
  with l show "DynamicArray_dtor h a = Inr (h[data a := None])
     \<and> (\<forall>i. operator_index_read (h[data a := None]) a i = Inl UndefinedBehaviour)
     \<and> (\<forall>i v. operator_index_assign (h[data a := None]) a i v = Inl UndefinedBehaviour)
     \<and> (0 < arr_size a \<and> host (h[data a := None]) (arr_size a) \<longrightarrow>
           DynamicArray_copy_ctor host (h[data a := None]) a = Inl UndefinedBehaviour)
     \<and> DynamicArray_dtor (h[data a := None]) a = Inl UndefinedBehaviour"
    by (simp add: dtor_live after_dtor copy_after_dtor)
qed

theorem dtor_frees_storage_witness:
  "live [filled [10, 20], filled [7]] \<lparr>data = 0, arr_size = 2\<rparr>
   \<and> DynamicArray_dtor [filled [10, 20], filled [7]] \<lparr>data = 0, arr_size = 2\<rparr> = Inr [None, filled [7]]
   \<and> operator_index_read [None, filled [7]] \<lparr>data = 0, arr_size = 2\<rparr> 0 = Inl UndefinedBehaviour
   \<and> DynamicArray_copy_ctor unlimited [None, filled [7]] \<lparr>data = 0, arr_size = 2\<rparr> = Inl UndefinedBehaviour
   \<and> DynamicArray_dtor [None, filled [7]] \<lparr>data = 0, arr_size = 2\<rparr> = Inl UndefinedBehaviour"
proof -
  have l: "live [filled [10, 20], filled [7]] \<lparr>data = 0, arr_size = 2\<rparr>"
    by (simp add: live_filled)
  have u: "unlimited [None, filled [7]] 2" by (simp add: unlimited_def)
  from dtor_frees_storage [of "[filled [10, 20], filled [7]]" "\<lparr>data = 0, arr_size = 2\<rparr>" unlimited] l u
  show ?thesis by simp
qed

text \<open>
  The claim as stated fails on the instance \<open>DynamicArray(1)\<close> built on the empty heap:
  after its destructor, \<open>operator[]\<close> and the copy constructor do not fail with
  \<open>InvalidStateError\<close> (nothing is checked), and a second destructor call is a second
  \<open>delete[]\<close>.
\<close>

theorem dtor_not_idempotent:
  "DynamicArray_ctor unlimited [] 1 = Inr (\<lparr>data = 0, arr_size = 1\<rparr>, [filled [0]])
   \<and> DynamicArray_dtor [filled [0]] \<lparr>data = 0, arr_size = 1\<rparr> = Inr [None]
   \<and> operator_index_read [None] \<lparr>data = 0, arr_size = 1\<rparr> 0 \<noteq> Inl InvalidStateError
   \<and> operator_index_assign [None] \<lparr>data = 0, arr_size = 1\<rparr> 0 5 \<noteq> Inl InvalidStateError
   \<and> DynamicArray_copy_ctor unlimited [None] \<lparr>data = 0, arr_size = 1\<rparr> \<noteq> Inl InvalidStateError
   \<and> DynamicArray_dtor [None] \<lparr>data = 0, arr_size = 1\<rparr> = Inl UndefinedBehaviour"
proof -
  have u: "\<And>h n. unlimited h n" by (simp add: unlimited_def)
  have l: "live [filled [0]] \<lparr>data = 0, arr_size = 1\<rparr>" by (simp add: live_filled)
  have c: "DynamicArray_ctor unlimited [] 1 = Inr (\<lparr>data = 0, arr_size = 1\<rparr>, [filled [0]])"
    using ctor_filled [of unlimited "[]" 1] u by simp
  have "DynamicArray_copy_ctor unlimited ([filled [0]][data \<lparr>data = 0, arr_size = 1\<rparr> := None]) \<lparr>data = 0, arr_size = 1\<rparr>
      = Inl UndefinedBehaviour"
    by (rule copy_after_dtor) (simp_all add: u)
  then have cc: "DynamicArray_copy_ctor unlimited [None] \<lparr>data = 0, arr_size = 1\<rparr> = Inl UndefinedBehaviour"
    by simp
  from c cc dtor_live [OF l] after_dtor [of "\<lparr>data = 0, arr_size = 1\<rparr>" "[filled [0]]"]
  show ?thesis by simp
qed

text \<open>
  C2 (as amended). \<open>operator[]\<close> checks nothing. On a live instance of size \<open>c\<close>, for every
  index below \<open>c\<close> reading returns that element and changes nothing, and assigning
  replaces that element and nothing else (the other elements, the size, and every other
  array on the heap stay as they are); for every index from \<open>c\<close> on, the access is outside
  the array: undefined behaviour, and no \<open>IndexOutOfRangeError\<close>.
\<close>

theorem operator_index_unchecked:
  "live h a \<longrightarrow>
     (\<forall>i<arr_size a.
        operator_index_read h a i = Inr (contents h a ! i)
        \<and> (\<forall>v. \<exists>h'. operator_index_assign h a i v = Inr h'
               \<and> contents h' a = (contents h a)[i := v]
               \<and> live h' a \<and> length h' = length h \<and> (\<forall>q. q \<noteq> data a \<longrightarrow> h' ! q = h ! q)))
     \<and> (\<forall>i\<ge>arr_size a.
        operator_index_read h a i = Inl UndefinedBehaviour
        \<and> (\<forall>v. operator_index_assign h a i v = Inl UndefinedBehaviour))"
  using read_in_range [of h a] assign_in_range [of h a] out_of_range [of h a]
  by blast

theorem operator_index_unchecked_witness:
  "live [filled [10, 20], filled [7]] \<lparr>data = 0, arr_size = 2\<rparr>
   \<and> operator_index_read [filled [10, 20], filled [7]] \<lparr>data = 0, arr_size = 2\<rparr> 1 = Inr 20
   \<and> operator_index_read [filled [10, 20], filled [7]] \<lparr>data = 0, arr_size = 2\<rparr> 2 = Inl UndefinedBehaviour
   \<and> operator_index_assign [filled [10, 20], filled [7]] \<lparr>data = 0, arr_size = 2\<rparr> 5 1 = Inl UndefinedBehaviour"
proof -
  have l: "live [filled [10, 20], filled [7]] \<lparr>data = 0, arr_size = 2\<rparr>"
    by (simp add: live_filled)
  have c: "contents [filled [10, 20], filled [7]] \<lparr>data = 0, arr_size = 2\<rparr> = [10, 20]"
    by (simp add: contents_filled)
  from operator_index_unchecked [of "[filled [10, 20], filled [7]]" "\<lparr>data = 0, arr_size = 2\<rparr>"] l
  have inside: "\<forall>i<2. operator_index_read [filled [10, 20], filled [7]] \<lparr>data = 0, arr_size = 2\<rparr> i
                  = Inr (contents [filled [10, 20], filled [7]] \<lparr>data = 0, arr_size = 2\<rparr> ! i)"
    and outside: "\<forall>i\<ge>2. operator_index_read [filled [10, 20], filled [7]] \<lparr>data = 0, arr_size = 2\<rparr> i = Inl UndefinedBehaviour
        \<and> (\<forall>v. operator_index_assign [filled [10, 20], filled [7]] \<lparr>data = 0, arr_size = 2\<rparr> i v = Inl UndefinedBehaviour)"
    by simp_all
  have "operator_index_read [filled [10, 20], filled [7]] \<lparr>data = 0, arr_size = 2\<rparr> 1 = Inr 20"
    using inside [rule_format, of 1] c by simp
  moreover have "operator_index_read [filled [10, 20], filled [7]] \<lparr>data = 0, arr_size = 2\<rparr> 2 = Inl UndefinedBehaviour"
    using outside [rule_format, of 2] by simp
  moreover have "operator_index_assign [filled [10, 20], filled [7]] \<lparr>data = 0, arr_size = 2\<rparr> 5 1 = Inl UndefinedBehaviour"
    using outside [rule_format, of 5] by simp
  ultimately show ?thesis using l by simp
qed

text \<open>
  The claim as stated fails on the instance \<open>DynamicArray(2)\<close> built on the empty heap, at
  index 2: neither reading nor assigning fails with \<open>IndexOutOfRangeError\<close>.
\<close>

theorem operator_index_no_range_error:
  "DynamicArray_ctor unlimited [] 2 = Inr (\<lparr>data = 0, arr_size = 2\<rparr>, [filled [0, 0]])
   \<and> operator_index_read [filled [0, 0]] \<lparr>data = 0, arr_size = 2\<rparr> 2 = Inl UndefinedBehaviour
   \<and> operator_index_read [filled [0, 0]] \<lparr>data = 0, arr_size = 2\<rparr> 2 \<noteq> Inl IndexOutOfRangeError
   \<and> operator_index_assign [filled [0, 0]] \<lparr>data = 0, arr_size = 2\<rparr> 2 7 = Inl UndefinedBehaviour
   \<and> operator_index_assign [filled [0, 0]] \<lparr>data = 0, arr_size = 2\<rparr> 2 7 \<noteq> Inl IndexOutOfRangeError"
proof -
  have u: "\<And>h n. unlimited h n" by (simp add: unlimited_def)
  have c: "DynamicArray_ctor unlimited [] 2 = Inr (\<lparr>data = 0, arr_size = 2\<rparr>, [filled [0, 0]])"
    using ctor_filled [of unlimited "[]" 2] u by (simp add: numeral_2_eq_2)
  have l: "live [filled [0, 0]] \<lparr>data = 0, arr_size = 2\<rparr>" by (simp add: live_filled)
  from c out_of_range [OF l, of 2] show ?thesis by simp
qed

text \<open>
  C3 (as amended). Copy-constructing from a live instance \<open>r\<close> (when the host satisfies
  the allocation) returns a new live instance of the same size with the same contents,
  leaves \<open>r\<close> as it was, and uses another array: in every later heap in which it is
  live, an assignment through \<open>operator[]\<close> of one of the two at an index below the size
  succeeds and changes neither the contents nor the liveness of the other. At an index
  from the size on the assignment is unchecked, undefined behaviour, and nothing is
  promised about either instance. In particular: construct with 3 elements, assign 10,
  20, 30, copy, assign 99 to element 0 of the copy; element 0 of the original still reads
  10, that of the copy 99.
\<close>

theorem copy_ctor_deep_copy:
  "(live h r \<and> host h (arr_size r) \<longrightarrow>
      (\<exists>d h'. DynamicArray_copy_ctor host h r = Inr (d, h')
        \<and> arr_size d = arr_size r \<and> live h' d \<and> live h' r
        \<and> contents h' d = contents h r \<and> contents h' r = contents h r
        \<and> data d \<noteq> data r
        \<and> (\<forall>g i v. live g d \<and> i < arr_size d \<longrightarrow>
               (\<exists>g'. operator_index_assign g d i v = Inr g'
                  \<and> contents g' r = contents g r \<and> live g' r = live g r))
        \<and> (\<forall>g i v. live g r \<and> i < arr_size r \<longrightarrow>
               (\<exists>g'. operator_index_assign g r i v = Inr g'
                  \<and> contents g' d = contents g d \<and> live g' d = live g d))
        \<and> (\<forall>g i v. live g d \<and> arr_size d \<le> i \<longrightarrow>
               operator_index_assign g d i v = Inl UndefinedBehaviour)
        \<and> (\<forall>g i v. live g r \<and> arr_size r \<le> i \<longrightarrow>
               operator_index_assign g r i v = Inl UndefinedBehaviour)))
   \<and> DynamicArray_ctor unlimited [] 3 = Inr (\<lparr>data = 0, arr_size = 3\<rparr>, [filled [0, 0, 0]])
   \<and> operator_index_assign [filled [0, 0, 0]] \<lparr>data = 0, arr_size = 3\<rparr> 0 10 = Inr [filled [10, 0, 0]]
   \<and> operator_index_assign [filled [10, 0, 0]] \<lparr>data = 0, arr_size = 3\<rparr> 1 20 = Inr [filled [10, 20, 0]]
   \<and> operator_index_assign [filled [10, 20, 0]] \<lparr>data = 0, arr_size = 3\<rparr> 2 30 = Inr [filled [10, 20, 30]]
   \<and> DynamicArray_copy_ctor unlimited [filled [10, 20, 30]] \<lparr>data = 0, arr_size = 3\<rparr>
        = Inr (\<lparr>data = 1, arr_size = 3\<rparr>, [filled [10, 20, 30], filled [10, 20, 30]])
   \<and> operator_index_assign [filled [10, 20, 30], filled [10, 20, 30]] \<lparr>data = 1, arr_size = 3\<rparr> 0 99
        = Inr [filled [10, 20, 30], filled [99, 20, 30]]
   \<and> operator_index_read [filled [10, 20, 30], filled [99, 20, 30]] \<lparr>data = 0, arr_size = 3\<rparr> 0 = Inr 10
   \<and> operator_index_read [filled [10, 20, 30], filled [99, 20, 30]] \<lparr>data = 1, arr_size = 3\<rparr> 0 = Inr 99"
proof (intro conjI)
  show "live h r \<and> host h (arr_size r) \<longrightarrow>
      (\<exists>d h'. DynamicArray_copy_ctor host h r = Inr (d, h')
        \<and> arr_size d = arr_size r \<and> live h' d \<and> live h' r
        \<and> contents h' d = contents h r \<and> contents h' r = contents h r
        \<and> data d \<noteq> data r
        \<and> (\<forall>g i v. live g d \<and> i < arr_size d \<longrightarrow>
               (\<exists>g'. operator_index_assign g d i v = Inr g'
                  \<and> contents g' r = contents g r \<and> live g' r = live g r))
        \<and> (\<forall>g i v. live g r \<and> i < arr_size r \<longrightarrow>
               (\<exists>g'. operator_index_assign g r i v = Inr g'
                  \<and> contents g' d = contents g d \<and> live g' d = live g d))
        \<and> (\<forall>g i v. live g d \<and> arr_size d \<le> i \<longrightarrow>
               operator_index_assign g d i v = Inl UndefinedBehaviour)
        \<and> (\<forall>g i v. live g r \<and> arr_size r \<le> i \<longrightarrow>
               operator_index_assign g r i v = Inl UndefinedBehaviour))"
  proof
    assume "live h r \<and> host h (arr_size r)"
    with copy_ctor_general [of h r host]
    obtain d h' where run: "DynamicArray_copy_ctor host h r = Inr (d, h')"
      and props: "arr_size d = arr_size r" "live h' d" "live h' r"
        "contents h' d = contents h r" "contents h' r = contents h r"
      and ne: "data d \<noteq> data r"
      by blast
    have "\<forall>g i v. live g d \<and> i < arr_size d \<longrightarrow>
               (\<exists>g'. operator_index_assign g d i v = Inr g'
                  \<and> contents g' r = contents g r \<and> live g' r = live g r)"
      using in_range_assign_keeps_other [of _ d _ r] ne by simp
    moreover have "\<forall>g i v. live g r \<and> i < arr_size r \<longrightarrow>
               (\<exists>g'. operator_index_assign g r i v = Inr g'
                  \<and> contents g' d = contents g d \<and> live g' d = live g d)"
      using in_range_assign_keeps_other [of _ r _ d] ne by simp
    moreover have "\<forall>g i v. live g d \<and> arr_size d \<le> i \<longrightarrow>
               operator_index_assign g d i v = Inl UndefinedBehaviour"
      using out_of_range(2) [of _ d] by simp
    moreover have "\<forall>g i v. live g r \<and> arr_size r \<le> i \<longrightarrow>
               operator_index_assign g r i v = Inl UndefinedBehaviour"
      using out_of_range(2) [of _ r] by simp
    ultimately show "\<exists>d h'. DynamicArray_copy_ctor host h r = Inr (d, h')
        \<and> arr_size d = arr_size r \<and> live h' d \<and> live h' r
        \<and> contents h' d = contents h r \<and> contents h' r = contents h r
        \<and> data d \<noteq> data r
        \<and> (\<forall>g i v. live g d \<and> i < arr_size d \<longrightarrow>
               (\<exists>g'. operator_index_assign g d i v = Inr g'
                  \<and> contents g' r = contents g r \<and> live g' r = live g r))
        \<and> (\<forall>g i v. live g r \<and> i < arr_size r \<longrightarrow>
               (\<exists>g'. operator_index_assign g r i v = Inr g'
                  \<and> contents g' d = contents g d \<and> live g' d = live g d))
        \<and> (\<forall>g i v. live g d \<and> arr_size d \<le> i \<longrightarrow>
               operator_index_assign g d i v = Inl UndefinedBehaviour)
        \<and> (\<forall>g i v. live g r \<and> arr_size r \<le> i \<longrightarrow>
               operator_index_assign g r i v = Inl UndefinedBehaviour)"
      using run props ne by (intro exI [of _ d] exI [of _ h']) simp
  qed
  have u: "\<And>h n. unlimited h n" by (simp add: unlimited_def)
  show "DynamicArray_ctor unlimited [] 3 = Inr (\<lparr>data = 0, arr_size = 3\<rparr>, [filled [0, 0, 0]])"
    using ctor_filled [of unlimited "[]" 3] u by (simp add: numeral_3_eq_3)
  show "operator_index_assign [filled [0, 0, 0]] \<lparr>data = 0, arr_size = 3\<rparr> 0 10 = Inr [filled [10, 0, 0]]"
    by (simp add: assign_filled)
  show "operator_index_assign [filled [10, 0, 0]] \<lparr>data = 0, arr_size = 3\<rparr> 1 20 = Inr [filled [10, 20, 0]]"
    by (simp add: assign_filled)
  show "operator_index_assign [filled [10, 20, 0]] \<lparr>data = 0, arr_size = 3\<rparr> 2 30 = Inr [filled [10, 20, 30]]"
    by (simp add: assign_filled)
  show "DynamicArray_copy_ctor unlimited [filled [10, 20, 30]] \<lparr>data = 0, arr_size = 3\<rparr>
        = Inr (\<lparr>data = 1, arr_size = 3\<rparr>, [filled [10, 20, 30], filled [10, 20, 30]])"
    using copy_ctor_filled [of 0 "[filled [10, 20, 30]]" "[10, 20, 30]" 3 unlimited] u by simp
  show "operator_index_assign [filled [10, 20, 30], filled [10, 20, 30]] \<lparr>data = 1, arr_size = 3\<rparr> 0 99
        = Inr [filled [10, 20, 30], filled [99, 20, 30]]"
    by (simp add: assign_filled)
  show "operator_index_read [filled [10, 20, 30], filled [99, 20, 30]] \<lparr>data = 0, arr_size = 3\<rparr> 0 = Inr 10"
    by (simp add: read_filled)
  show "operator_index_read [filled [10, 20, 30], filled [99, 20, 30]] \<lparr>data = 1, arr_size = 3\<rparr> 0 = Inr 99"
    by (simp add: read_filled)
qed

theorem copy_ctor_deep_copy_witness:
  "live [filled [10, 20, 30]] \<lparr>data = 0, arr_size = 3\<rparr> \<and> unlimited [filled [10, 20, 30]] 3
   \<and> (\<exists>d h'. DynamicArray_copy_ctor unlimited [filled [10, 20, 30]] \<lparr>data = 0, arr_size = 3\<rparr> = Inr (d, h')
         \<and> contents h' d = [10, 20, 30] \<and> data d \<noteq> 0
         \<and> (\<exists>g'. operator_index_assign h' d 0 99 = Inr g' \<and> contents g' \<lparr>data = 0, arr_size = 3\<rparr> = [10, 20, 30])
         \<and> operator_index_assign h' d 3 99 = Inl UndefinedBehaviour)"
proof -
  have l: "live [filled [10, 20, 30]] \<lparr>data = 0, arr_size = 3\<rparr>"
    by (simp add: live_filled)
  have u: "unlimited [filled [10, 20, 30]] 3" by (simp add: unlimited_def)
  have c: "contents [filled [10, 20, 30]] \<lparr>data = 0, arr_size = 3\<rparr> = [10, 20, 30]"
    by (simp add: contents_filled)
  from copy_ctor_deep_copy [of "[filled [10, 20, 30]]" "\<lparr>data = 0, arr_size = 3\<rparr>" unlimited] l u
  obtain d h' where run: "DynamicArray_copy_ctor unlimited [filled [10, 20, 30]] \<lparr>data = 0, arr_size = 3\<rparr> = Inr (d, h')"
    and sz: "arr_size d = 3" and ld: "live h' d"
    and cd: "contents h' d = contents [filled [10, 20, 30]] \<lparr>data = 0, arr_size = 3\<rparr>"
    and cr: "contents h' \<lparr>data = 0, arr_size = 3\<rparr> = contents [filled [10, 20, 30]] \<lparr>data = 0, arr_size = 3\<rparr>"
    and ne: "data d \<noteq> 0"
    and inside: "\<forall>g i v. live g d \<and> i < arr_size d \<longrightarrow>
               (\<exists>g'. operator_index_assign g d i v = Inr g'
                  \<and> contents g' \<lparr>data = 0, arr_size = 3\<rparr> = contents g \<lparr>data = 0, arr_size = 3\<rparr>
                  \<and> live g' \<lparr>data = 0, arr_size = 3\<rparr> = live g \<lparr>data = 0, arr_size = 3\<rparr>)"
    and outside: "\<forall>g i v. live g d \<and> arr_size d \<le> i \<longrightarrow>
               operator_index_assign g d i v = Inl UndefinedBehaviour"
    by auto
  from inside [rule_format, of h' 0 99] ld sz cr c
  have "\<exists>g'. operator_index_assign h' d 0 99 = Inr g' \<and> contents g' \<lparr>data = 0, arr_size = 3\<rparr> = [10, 20, 30]"
    by auto
  moreover from outside [rule_format, of h' 3 99] ld sz
  have "operator_index_assign h' d 3 99 = Inl UndefinedBehaviour" by simp
  ultimately show ?thesis using l u c run cd ne by auto
qed

text \<open>
  The claim as stated fails for the assignments \<open>operator[]\<close> does not check: after the
  copy of the scenario, assigning through the copy at index 3, or through the original
  at index 8, is outside the array, and no heap results in which the other instance is
  known to be unchanged.
\<close>

theorem copy_ctor_out_of_range_write:
  "DynamicArray_copy_ctor unlimited [filled [10, 20, 30]] \<lparr>data = 0, arr_size = 3\<rparr>
        = Inr (\<lparr>data = 1, arr_size = 3\<rparr>, [filled [10, 20, 30], filled [10, 20, 30]])
   \<and> operator_index_assign [filled [10, 20, 30], filled [10, 20, 30]] \<lparr>data = 1, arr_size = 3\<rparr> 3 99
        = Inl UndefinedBehaviour
   \<and> operator_index_assign [filled [10, 20, 30], filled [10, 20, 30]] \<lparr>data = 0, arr_size = 3\<rparr> 8 99
        = Inl UndefinedBehaviour
   \<and> \<not> (\<exists>g'. operator_index_assign [filled [10, 20, 30], filled [10, 20, 30]] \<lparr>data = 1, arr_size = 3\<rparr> 3 99 = Inr g'
            \<and> contents g' \<lparr>data = 0, arr_size = 3\<rparr> = [10, 20, 30])"
proof -
  have u: "\<And>h n. unlimited h n" by (simp add: unlimited_def)
  have c: "DynamicArray_copy_ctor unlimited [filled [10, 20, 30]] \<lparr>data = 0, arr_size = 3\<rparr>
        = Inr (\<lparr>data = 1, arr_size = 3\<rparr>, [filled [10, 20, 30], filled [10, 20, 30]])"
    using copy_ctor_filled [of 0 "[filled [10, 20, 30]]" "[10, 20, 30]" 3 unlimited] u by simp
  have l1: "live [filled [10, 20, 30], filled [10, 20, 30]] \<lparr>data = 1, arr_size = 3\<rparr>"
    and l0: "live [filled [10, 20, 30], filled [10, 20, 30]] \<lparr>data = 0, arr_size = 3\<rparr>"
    by (simp_all add: live_filled)
  from c out_of_range(2) [OF l1, of 3 99] out_of_range(2) [OF l0, of 8 99] show ?thesis by simp
qed

text \<open>
  C4. For every capacity \<open>c\<close>, the constructor returns an instance whenever the host
  satisfies \<open>new int[c]\<close> (and throws otherwise); whenever it returns one, the instance has
  size \<open>c\<close>, is live, every element reads as 0, and the arrays that were on the heap
  before are as they were.
\<close>

theorem ctor_zero_initialises:
  "(host h c \<longrightarrow> (\<exists>a h'. DynamicArray_ctor host h c = Inr (a, h')))
   \<and> (\<not> host h c \<longrightarrow> DynamicArray_ctor host h c = Inl AllocationError)
   \<and> (\<forall>a h'. DynamicArray_ctor host h c = Inr (a, h') \<longrightarrow>
          arr_size a = c \<and> live h' a \<and> contents h' a = replicate c 0
          \<and> (\<forall>i<c. operator_index_read h' a i = Inr 0)
          \<and> take (length h) h' = h)"
proof (cases "host h c")
  case False
  then show ?thesis by (simp add: DynamicArray_ctor_fails)
next
  case True
  let ?a = "\<lparr>data = length h, arr_size = c\<rparr>"
  let ?h = "h @ [Some (replicate c (Some 0))]"
  have run: "DynamicArray_ctor host h c = Inr (?a, ?h)"
    using True by (rule DynamicArray_ctor_ok)
  have l: "live ?h ?a" by (simp add: live_def list_all_length)
  have c: "contents ?h ?a = replicate c 0" by (simp add: contents_def)
  have "\<forall>i<c. operator_index_read ?h ?a i = Inr 0"
    using read_in_range [OF l] c by simp
  with run l c True show ?thesis by simp
qed

theorem ctor_zero_initialises_witness:
  "unlimited [] 3 \<and> DynamicArray_ctor unlimited [] 3 = Inr (\<lparr>data = 0, arr_size = 3\<rparr>, [Some [Some 0, Some 0, Some 0]])
   \<and> live [Some [Some 0, Some 0, Some 0]] \<lparr>data = 0, arr_size = 3\<rparr>
   \<and> operator_index_read [Some [Some 0, Some 0, Some 0]] \<lparr>data = 0, arr_size = 3\<rparr> 2 = Inr 0"
proof -
  have u: "unlimited [] 3" by (simp add: unlimited_def)
  have run: "DynamicArray_ctor unlimited [] 3 = Inr (\<lparr>data = 0, arr_size = 3\<rparr>, [Some [Some 0, Some 0, Some 0]])"
    using u DynamicArray_ctor_ok [of unlimited "[]" 3] by (simp add: numeral_3_eq_3)
  from ctor_zero_initialises [of unlimited "[]" 3] run u show ?thesis
    by simp
qed

text \<open>
  C5 (as amended). \<open>getTotal\<close> returns the prices of the items the cart holds, added one
  after the other in the order of the items, starting from \<open>0.0\<close>, in the addition of the
  prices' type: it is zero for a cart without items, after \<open>addItem\<close> it is the total
  before plus the new price, and the call leaves every object as it was. Wherever that
  addition is associative with neutral zero (an additive monoid: exact arithmetic) this
  is the sum of the prices in any order.
\<close>

theorem total_is_left_sum:
  fixes s :: "('d::{zero,plus}) store" and t :: "('e::monoid_add) store"
  shows "fst (getTotal s this) = foldl (+) 0 (map price (items (s this)))
       \<and> (items (s this) = [] \<longrightarrow> fst (getTotal s this) = 0)
       \<and> fst (getTotal (snd (addItem s this n p)) this) = fst (getTotal s this) + p
       \<and> snd (getTotal s this) = s
       \<and> fst (getTotal t that) = sum_list (map price (items (t that)))"
proof (intro conjI)
  show "fst (getTotal s this) = foldl (+) 0 (map price (items (s this)))"
    by (simp add: getTotal_def getTotal_loop_foldl)
  show "items (s this) = [] \<longrightarrow> fst (getTotal s this) = 0"
    by (simp add: getTotal_def)
  show "fst (getTotal (snd (addItem s this n p)) this) = fst (getTotal s this) + p"
    by (simp add: getTotal_def addItem_def getTotal_loop_snoc)
  show "snd (getTotal s this) = s"
    by (simp add: getTotal_def)
  show "fst (getTotal t that) = sum_list (map price (items (t that)))"
    by (simp add: getTotal_def getTotal_loop_sum)
qed

theorem total_is_left_sum_witness:
  "fst (getTotal (no_carts :: double store) 0) = 0
   \<and> fst (getTotal tenths_cart 0)
        = ((0 + Finite (3602879701896397 / 36028797018963968))
             + Finite (3602879701896397 / 18014398509481984))
           + Finite (5404319552844595 / 18014398509481984)
   \<and> fst (getTotal (snd (addItem large_first_cart 0 ''d'' (Finite 1))) 0)
        = fst (getTotal large_first_cart 0) + Finite 1
   \<and> fst (getTotal fruit_cart 0) = 3.50"
proof -
  have e: "items ((no_carts :: double store) 0) = []" by (simp add: no_carts_def)
  from total_is_left_sum [of "no_carts :: double store" 0 "''x''" 0 fruit_cart 0] e
  have "fst (getTotal (no_carts :: double store) 0) = 0" and "fst (getTotal fruit_cart 0) = 3.50"
    by (simp_all add: items_fruit_cart)
  moreover from total_is_left_sum [of tenths_cart 0 "''x''" 0 fruit_cart 0]
  have "fst (getTotal tenths_cart 0)
        = ((0 + Finite (3602879701896397 / 36028797018963968))
             + Finite (3602879701896397 / 18014398509481984))
           + Finite (5404319552844595 / 18014398509481984)"
    by (simp only: items_tenths_cart list.map foldl.simps Item.simps)
  moreover from total_is_left_sum [of large_first_cart 0 "''d''" "Finite 1" fruit_cart 0]
  have "fst (getTotal (snd (addItem large_first_cart 0 ''d'' (Finite 1))) 0)
        = fst (getTotal large_first_cart 0) + Finite 1"
    by (elim conjE)
  ultimately show ?thesis by (intro conjI)
qed

text \<open>
  The claim as stated fails on \<open>double\<close>, the type the cart has. The cart holding
  \<open>1e16, 1.0, 1.0\<close> has the total \<open>1e16\<close>, although the sum of its three amounts,
  \<open>10000000000000002\<close>, is a double, and is the total of the cart that holds the same
  amounts in reverse order. Likewise the totals of \<open>0.1, 0.2, 0.3\<close> and of
  \<open>0.3, 0.2, 0.1\<close> differ (\<open>0.6000000000000001\<close> and \<open>0.6\<close>).
\<close>

theorem total_depends_on_order:
  "map price (items (large_last_cart 0)) = rev (map price (items (large_first_cart 0)))
   \<and> fst (getTotal large_first_cart 0) = Finite 10000000000000000
   \<and> fst (getTotal large_last_cart 0) = Finite 10000000000000002
   \<and> round_double (10000000000000000 + 1 + 1) = Finite 10000000000000002
   \<and> fst (getTotal large_first_cart 0) \<noteq> fst (getTotal large_last_cart 0)
   \<and> map price (items (tenths_reversed_cart 0)) = rev (map price (items (tenths_cart 0)))
   \<and> fst (getTotal tenths_cart 0) = Finite (1351079888211149 / 2251799813685248)
   \<and> fst (getTotal tenths_reversed_cart 0) = Finite (5404319552844595 / 9007199254740992)
   \<and> fst (getTotal tenths_cart 0) \<noteq> fst (getTotal tenths_reversed_cart 0)"
proof (intro conjI)
  show "map price (items (large_last_cart 0)) = rev (map price (items (large_first_cart 0)))"
    by (simp add: items_large_first_cart items_large_last_cart)
  show "fst (getTotal large_first_cart 0) = Finite 10000000000000000"
    by (rule total_large_first_cart)
  show "fst (getTotal large_last_cart 0) = Finite 10000000000000002"
    by (rule total_large_last_cart)
  show "round_double (10000000000000000 + 1 + 1) = Finite 10000000000000002"
    using round_1e16_2 by simp
  show "fst (getTotal large_first_cart 0) \<noteq> fst (getTotal large_last_cart 0)"
    by (simp add: total_large_first_cart total_large_last_cart)
  show "map price (items (tenths_reversed_cart 0)) = rev (map price (items (tenths_cart 0)))"
    by (simp add: items_tenths_cart items_tenths_reversed_cart)
  show "fst (getTotal tenths_cart 0) = Finite (1351079888211149 / 2251799813685248)"
    by (rule total_tenths_cart)
  show "fst (getTotal tenths_reversed_cart 0) = Finite (5404319552844595 / 9007199254740992)"
    by (rule total_tenths_reversed_cart)
  show "fst (getTotal tenths_cart 0) \<noteq> fst (getTotal tenths_reversed_cart 0)"
    by (simp add: total_tenths_cart total_tenths_reversed_cart)
qed

text \<open>
  C6. \<open>removeItem(l)\<close> keeps exactly the items whose name differs from \<open>l\<close> (equality of
  strings, so case-sensitive), in their order, returns the object it was called on,
  touches no other object, and changes nothing when no item is named \<open>l\<close>. For the cart
  of \<open>main\<close> (Apple 1.50, Banana 0.75, Orange 1.25) the total is 3.50, and after
  \<open>removeItem("Banana")\<close> it is 2.75 with the two items Apple and Orange in that order.
  (These amounts and their partial sums are multiples of 1/4 below 4, so the additions
  are exact in \<open>double\<close> as well.)
\<close>

theorem removeItem_filters:
  "fst (removeItem s this l) = this
     \<and> items (snd (removeItem s this l) this) = filter (\<lambda>item. name item \<noteq> l) (items (s this))
     \<and> (\<forall>r. r \<noteq> this \<longrightarrow> snd (removeItem s this l) r = s r)
     \<and> ((\<forall>item \<in> set (items (s this)). name item \<noteq> l) \<longrightarrow> snd (removeItem s this l) = s)
     \<and> fst (getTotal fruit_cart 0) = 3.50
     \<and> fst (getTotal (snd (removeItem fruit_cart 0 ''Banana'')) 0) = 2.75
     \<and> items (snd (removeItem fruit_cart 0 ''Banana'') 0)
         = [\<lparr>name = ''Apple'', price = 1.50\<rparr>, \<lparr>name = ''Orange'', price = 1.25\<rparr>]"
proof (intro conjI)
  show "fst (removeItem s this l) = this" by (rule fst_removeItem)
  show "items (snd (removeItem s this l) this) = filter (\<lambda>item. name item \<noteq> l) (items (s this))"
    by (rule items_removeItem)
  show "\<forall>r. r \<noteq> this \<longrightarrow> snd (removeItem s this l) r = s r"
    by (simp add: removeItem_other)
  show "(\<forall>item \<in> set (items (s this)). name item \<noteq> l) \<longrightarrow> snd (removeItem s this l) = s"
    using removeItem_no_match [of s this l] by blast
  show "fst (getTotal fruit_cart 0) = 3.50"
    by (simp add: getTotal_def items_fruit_cart)
  show "fst (getTotal (snd (removeItem fruit_cart 0 ''Banana'')) 0) = 2.75"
    by (simp add: getTotal_def items_removeItem items_fruit_cart)
  show "items (snd (removeItem fruit_cart 0 ''Banana'') 0)
         = [\<lparr>name = ''Apple'', price = 1.50\<rparr>, \<lparr>name = ''Orange'', price = 1.25\<rparr>]"
    by (simp add: items_removeItem items_fruit_cart)
qed

theorem removeItem_filters_witness:
  "fst (removeItem fruit_cart 0 ''banana'') = 0
     \<and> snd (removeItem fruit_cart 0 ''banana'') = fruit_cart
     \<and> snd (removeItem fruit_cart 0 ''Banana'') 1 = fruit_cart 1
     \<and> map name (items (snd (removeItem fruit_cart 0 ''Banana'') 0)) = [''Apple'', ''Orange'']"
proof -
  have "\<forall>item \<in> set (items (fruit_cart 0)). name item \<noteq> ''banana''"
    by (simp add: items_fruit_cart)
  with removeItem_filters [of fruit_cart 0 "''banana''"] removeItem_filters [of fruit_cart 0 "''Banana''"]
  show ?thesis by simp
qed

text \<open>
  C7. \<open>addItem\<close> always returns, appends its pair at the end of the items and returns the
  object it was called on; so calling the second \<open>addItem\<close> on the reference the first
  returned (\<open>a.addItem(l1, x1).addItem(l2, x2)\<close>) yields the same store as calling both on
  \<open>a\<close>, with both items at the end in call order and every other object untouched.
  (\<open>std::vector\<close> is a list here: running out of memory in \<open>push_back\<close> is outside the
  model.)
\<close>

theorem addItem_chains:
  "fst (addItem s a l1 x1) = a
     \<and> items (snd (addItem s a l1 x1) a) = items (s a) @ [\<lparr>name = l1, price = x1\<rparr>]
     \<and> snd (addItem (snd (addItem s a l1 x1)) (fst (addItem s a l1 x1)) l2 x2)
         = snd (addItem (snd (addItem s a l1 x1)) a l2 x2)
     \<and> items (snd (addItem (snd (addItem s a l1 x1)) (fst (addItem s a l1 x1)) l2 x2) a)
         = items (s a) @ [\<lparr>name = l1, price = x1\<rparr>, \<lparr>name = l2, price = x2\<rparr>]
     \<and> (\<forall>r. r \<noteq> a \<longrightarrow> snd (addItem (snd (addItem s a l1 x1)) (fst (addItem s a l1 x1)) l2 x2) r = s r)"
  by (simp add: addItem_def)

theorem addItem_chains_witness:
  "items (snd (addItem (snd (addItem no_carts 0 ''x'' (1::real))) (fst (addItem no_carts 0 ''x'' (1::real))) ''y'' 2) 0)
      = [\<lparr>name = ''x'', price = 1\<rparr>, \<lparr>name = ''y'', price = 2\<rparr>]
   \<and> snd (addItem (snd (addItem no_carts 0 ''x'' (1::real))) (fst (addItem no_carts 0 ''x'' (1::real))) ''y'' 2) 1
      = no_carts 1"
proof -
  note t = addItem_chains [of "no_carts :: real store" 0 "''x''" 1 "''y''" 2]
  have e: "items ((no_carts :: real store) 0) = []"
    by (simp add: no_carts_def)
  from t have others: "\<forall>r. r \<noteq> 0 \<longrightarrow>
      snd (addItem (snd (addItem no_carts 0 ''x'' (1::real))) (fst (addItem no_carts 0 ''x'' (1::real))) ''y'' 2) r
        = no_carts r"
    by (elim conjE)
  from t e show ?thesis
    using others [rule_format, of 1] by (elim conjE) simp
qed








end
